theory Spec2Isabelle
  imports Main "HOL-Library.AList"
begin

unbundle bit_operations_syntax

section \<open>Values of a request body\<close>

text \<open>
  \<^verbatim>\<open>server.js\<close> reads its inputs from \<^verbatim>\<open>req.body\<close>, parsed by
  \<^verbatim>\<open>express.json()\<close>, \<^verbatim>\<open>express.urlencoded()\<close> or multer. A field is any
  JSON value, or \<^verbatim>\<open>undefined\<close> when it is absent. A number is kept as an integer
  when it has an integral value (\<open>0\<close> and \<open>-0\<close> are both \<open>JInt 0\<close>); \<open>JFrac\<close>
  stands for a number with a fractional part, \<open>JObject\<close> for an object or an array.
\<close>

datatype jsvalue =
    JUndefined
  | JNull
  | JBool bool
  | JInt int
  | JFrac
  | JString string
  | JObject

text \<open>JavaScript's \<^verbatim>\<open>ToBoolean\<close>, which \<^verbatim>\<open>!x\<close> and \<^verbatim>\<open>x && y\<close> apply.\<close>

fun truthy :: "jsvalue \<Rightarrow> bool" where
  "truthy JUndefined = False"
| "truthy JNull = False"
| "truthy (JBool b) = b"
| "truthy (JInt n) = (n \<noteq> 0)"
| "truthy JFrac = True"
| "truthy (JString s) = (s \<noteq> [])"
| "truthy JObject = True"

text \<open>
  \<^verbatim>\<open>path.join(dir, x)\<close> throws a \<^verbatim>\<open>TypeError\<close> unless \<^verbatim>\<open>x\<close> is a string. The
  stores are modelled at the level of names: a \<^verbatim>\<open>fileHash\<close>, a chunk key and a
  \<^verbatim>\<open>fileName\<close> each name one entry of their directory (one path component).
\<close>

fun path_join :: "jsvalue \<Rightarrow> string option" where
  "path_join (JString s) = Some s"
| "path_join _ = None"

text \<open>\<^verbatim>\<open>stats.size === size\<close>: strict equality of a byte count with a body field.\<close>

definition strict_eq_size :: "nat \<Rightarrow> jsvalue \<Rightarrow> bool" where
  "strict_eq_size n v = (v = JInt (int n))"

text \<open>The fields of \<^verbatim>\<open>req.body\<close> that the handlers destructure.\<close>

record body =
  fileHash :: jsvalue
  fileName :: jsvalue
  sizeField :: jsvalue
  hash :: jsvalue

section \<open>The two directories\<close>

type_synonym bytes = string

text \<open>
  \<^verbatim>\<open>uploads/\<close> maps a file name to the file's bytes. \<^verbatim>\<open>chunks/\<close> maps a
  \<^verbatim>\<open>fileHash\<close> to a directory of chunk files; a directory is an association list
  whose order is the order in which \<^verbatim>\<open>readdir\<close> lists it (the file system's choice).
\<close>

type_synonym directory = "(string \<times> bytes) list"

record fs =
  uploads :: "string \<rightharpoonup> bytes"
  chunks :: "string \<rightharpoonup> directory"

definition readdir :: "directory \<Rightarrow> string list" where
  "readdir d = map fst d"

definition readFile :: "directory \<Rightarrow> string \<Rightarrow> bytes option" where
  "readFile d k = map_of d k"

definition writeFileSync :: "string \<Rightarrow> bytes \<Rightarrow> directory \<Rightarrow> directory" where
  "writeFileSync k buf d = AList.update k buf d"

definition unlink :: "string \<Rightarrow> directory \<Rightarrow> directory" where
  "unlink k d = AList.delete k d"

section \<open>POST /check-file\<close>

datatype check_response =
    CheckBadRequest           \<comment> \<open>400, code 1\<close>
  | CheckExists string nat    \<comment> \<open>200, code 0, exists true, file name and size\<close>
  | CheckAbsent               \<comment> \<open>200, code 0, exists false\<close>
  | CheckFailed               \<comment> \<open>500, code 1\<close>

definition check_file :: "body \<Rightarrow> fs \<Rightarrow> check_response" where
  "check_file b s =
     (if \<not> truthy (fileHash b) \<or> \<not> truthy (fileName b) then CheckBadRequest
      else case path_join (fileName b) of
        None \<Rightarrow> CheckFailed
      | Some name \<Rightarrow>
          (case uploads s name of
             Some content \<Rightarrow>
               if truthy (sizeField b) \<and> strict_eq_size (length content) (sizeField b)
               then CheckExists name (length content)
               else CheckAbsent
           | None \<Rightarrow> CheckAbsent))"


section \<open>The MD5 digest of the crypto module\<close>

text \<open>
  \<^verbatim>\<open>crypto.createHash('md5')\<close> \<^verbatim>\<open>.update(data)\<close> \<^verbatim>\<open>.digest('hex')\<close> is Node's MD5.
  It is written out here after RFC 1321, on 32-bit words kept as naturals with the
  wrap-around explicit, so that a digest can be computed on a concrete file.
\<close>

type_synonym md5_state = "nat \<times> nat \<times> nat \<times> nat"

definition md5_K :: "nat list" where
  "md5_K =
    [0xd76aa478, 0xe8c7b756, 0x242070db, 0xc1bdceee, 0xf57c0faf, 0x4787c62a, 0xa8304613,
     0xfd469501, 0x698098d8, 0x8b44f7af, 0xffff5bb1, 0x895cd7be, 0x6b901122, 0xfd987193,
     0xa679438e, 0x49b40821, 0xf61e2562, 0xc040b340, 0x265e5a51, 0xe9b6c7aa, 0xd62f105d,
     0x02441453, 0xd8a1e681, 0xe7d3fbc8, 0x21e1cde6, 0xc33707d6, 0xf4d50d87, 0x455a14ed,
     0xa9e3e905, 0xfcefa3f8, 0x676f02d9, 0x8d2a4c8a, 0xfffa3942, 0x8771f681, 0x6d9d6122,
     0xfde5380c, 0xa4beea44, 0x4bdecfa9, 0xf6bb4b60, 0xbebfbc70, 0x289b7ec6, 0xeaa127fa,
     0xd4ef3085, 0x04881d05, 0xd9d4d039, 0xe6db99e5, 0x1fa27cf8, 0xc4ac5665, 0xf4292244,
     0x432aff97, 0xab9423a7, 0xfc93a039, 0x655b59c3, 0x8f0ccc92, 0xffeff47d, 0x85845dd1,
     0x6fa87e4f, 0xfe2ce6e0, 0xa3014314, 0x4e0811a1, 0xf7537e82, 0xbd3af235, 0x2ad7d2bb,
     0xeb86d391]"

definition md5_S :: "nat list" where
  "md5_S =
    [7, 12, 17, 22, 7, 12, 17, 22, 7, 12, 17, 22, 7, 12, 17, 22,
     5, 9, 14, 20, 5, 9, 14, 20, 5, 9, 14, 20, 5, 9, 14, 20,
     4, 11, 16, 23, 4, 11, 16, 23, 4, 11, 16, 23, 4, 11, 16, 23,
     6, 10, 15, 21, 6, 10, 15, 21, 6, 10, 15, 21, 6, 10, 15, 21]"

definition add32 :: "nat \<Rightarrow> nat \<Rightarrow> nat" where
  "add32 x y = (x + y) mod 4294967296"

definition not32 :: "nat \<Rightarrow> nat" where
  "not32 x = 4294967295 - x"

definition rotl32 :: "nat \<Rightarrow> nat \<Rightarrow> nat" where
  "rotl32 n x = (x * 2 ^ n) mod 4294967296 + x div 2 ^ (32 - n)"

definition md5_F :: "nat \<Rightarrow> nat \<Rightarrow> nat \<Rightarrow> nat \<Rightarrow> nat" where
  "md5_F i b c d =
     (if i < 16 then (b AND c) OR (not32 b AND d)
      else if i < 32 then (d AND b) OR (not32 d AND c)
      else if i < 48 then b XOR c XOR d
      else c XOR (b OR not32 d))"

definition md5_g :: "nat \<Rightarrow> nat" where
  "md5_g i =
     (if i < 16 then i
      else if i < 32 then (5 * i + 1) mod 16
      else if i < 48 then (3 * i + 5) mod 16
      else (7 * i) mod 16)"

function md5_rounds :: "nat list \<Rightarrow> nat \<Rightarrow> nat \<Rightarrow> nat \<Rightarrow> nat \<Rightarrow> nat \<Rightarrow> md5_state" where
  "md5_rounds m i a b c d =
     (if 64 \<le> i then (a, b, c, d)
      else md5_rounds m (i + 1) d
             (add32 b (rotl32 (md5_S ! i)
                (add32 (add32 (add32 a (md5_F i b c d)) (md5_K ! i)) (m ! md5_g i))))
             b c)"
  by pat_completeness auto
termination
  by (relation "measure (\<lambda>(m, i, a, b, c, d). 64 - i)") auto

declare md5_rounds.simps [simp del]

fun le_words :: "nat list \<Rightarrow> nat list" where
  "le_words (b0 # b1 # b2 # b3 # bs) =
     (b0 + 256 * b1 + 65536 * b2 + 16777216 * b3) # le_words bs"
| "le_words _ = []"

fun md5_start :: "nat list \<Rightarrow> md5_state \<Rightarrow> md5_state" where
  "md5_start m (a, b, c, d) = md5_rounds m 0 a b c d"

fun md5_sum :: "md5_state \<Rightarrow> md5_state \<Rightarrow> md5_state" where
  "md5_sum (a0, b0, c0, d0) (a, b, c, d) = (add32 a0 a, add32 b0 b, add32 c0 c, add32 d0 d)"

definition md5_block :: "md5_state \<Rightarrow> nat list \<Rightarrow> md5_state" where
  "md5_block st blk = md5_sum st (md5_start (le_words blk) st)"

function md5_blocks :: "md5_state \<Rightarrow> nat list \<Rightarrow> md5_state" where
  "md5_blocks st bs =
     (if bs = [] then st else md5_blocks (md5_block st (take 64 bs)) (drop 64 bs))"
  by pat_completeness auto
termination
  by (relation "measure (\<lambda>(st, bs). length bs)") auto

declare md5_blocks.simps [simp del]

definition le_bytes :: "nat list \<Rightarrow> nat \<Rightarrow> nat list" where
  "le_bytes is x = map (\<lambda>i. (x div 256 ^ i) mod 256) is"

definition md5_pad :: "nat list \<Rightarrow> nat list" where
  "md5_pad bs =
     bs @ [128] @ replicate ((119 - length bs mod 64) mod 64) 0
        @ le_bytes [0, 1, 2, 3, 4, 5, 6, 7] ((8 * length bs) mod 18446744073709551616)"

definition hex_digit :: "nat \<Rightarrow> char" where
  "hex_digit n = ''0123456789abcdef'' ! n"

definition hex_byte :: "nat \<Rightarrow> string" where
  "hex_byte n = [hex_digit (n div 16), hex_digit (n mod 16)]"

fun md5_output :: "md5_state \<Rightarrow> string" where
  "md5_output (a, b, c, d) =
     concat (map hex_byte (concat (map (le_bytes [0, 1, 2, 3]) [a, b, c, d])))"

definition md5_hex :: "bytes \<Rightarrow> string" where
  "md5_hex s =
     md5_output (md5_blocks (0x67452301, 0xefcdab89, 0x98badcfe, 0x10325476)
       (md5_pad (map of_char s)))"

section \<open>calculateFileHash\<close>

datatype error = TypeError | ENOENT | EIO

text \<open>
  What a read stream emits, in order: \<^verbatim>\<open>'data'\<close> events, and \<^verbatim>\<open>'end'\<close> or
  \<^verbatim>\<open>'error'\<close>. The promise settles at the first \<^verbatim>\<open>'end'\<close> or \<^verbatim>\<open>'error'\<close>; while
  neither has come it is pending.
\<close>

datatype stream_event = Data bytes | End | Error error

datatype 'a promise = Pending | Resolved 'a | Rejected error

text \<open>The Hash object holds what \<^verbatim>\<open>update\<close> has been given so far.\<close>

type_synonym hash_object = bytes

definition createHash :: hash_object where
  "createHash = []"

definition hash_update :: "hash_object \<Rightarrow> bytes \<Rightarrow> hash_object" where
  "hash_update h d = h @ d"

definition hash_digest :: "hash_object \<Rightarrow> string" where
  "hash_digest h = md5_hex h"

fun on_events :: "hash_object \<Rightarrow> stream_event list \<Rightarrow> string promise" where
  "on_events h [] = Pending"
| "on_events h (Data d # es) = on_events (hash_update h d) es"
| "on_events h (End # es) = Resolved (hash_digest h)"
| "on_events h (Error e # es) = Rejected e"

definition calculateFileHash :: "stream_event list \<Rightarrow> string promise" where
  "calculateFileHash stream = on_events createHash stream"

text \<open>
  \<^verbatim>\<open>fs.createReadStream(filePath)\<close> on a file of the completed store: the content in
  pieces of at most 64 KiB (the default \<^verbatim>\<open>highWaterMark\<close>), then \<^verbatim>\<open>'end'\<close>; a missing
  file gives \<^verbatim>\<open>'error'\<close>.
\<close>

function read_pieces :: "bytes \<Rightarrow> bytes list" where
  "read_pieces xs = (if xs = [] then [] else take 65536 xs # read_pieces (drop 65536 xs))"
  by pat_completeness auto
termination
  by (relation "measure length") auto

declare read_pieces.simps [simp del]

definition createReadStream :: "bytes option \<Rightarrow> stream_event list" where
  "createReadStream file =
     (case file of
        None \<Rightarrow> [Error ENOENT]
      | Some content \<Rightarrow> map Data (read_pieces content) @ [End])"

section \<open>POST /verify\<close>

definition is_dec_digit :: "char \<Rightarrow> bool" where
  "is_dec_digit c = (48 \<le> (of_char c :: nat) \<and> (of_char c :: nat) \<le> 57)"

text \<open>\<^verbatim>\<open>fileHash.replace(/^temp-\d+-/, '')\<close>.\<close>

definition replace_temp_prefix :: "string \<Rightarrow> string" where
  "replace_temp_prefix s =
     (if take 5 s = ''temp-''
        \<and> takeWhile is_dec_digit (drop 5 s) \<noteq> []
        \<and> take 1 (dropWhile is_dec_digit (drop 5 s)) = ''-''
      then drop 1 (dropWhile is_dec_digit (drop 5 s))
      else s)"

datatype verify_response =
    VerifyBadRequest              \<comment> \<open>400, code 1\<close>
  | VerifyNotFound                \<comment> \<open>404, code 1, verified false\<close>
  | VerifyPassed                  \<comment> \<open>200, code 0, verified true\<close>
  | VerifyMismatch string string  \<comment> \<open>200, code 0, verified false, details expected and actual\<close>
  | VerifyFailed error            \<comment> \<open>500, code 1, verified false\<close>
  | VerifyNoResponse              \<comment> \<open>the awaited promise stays pending\<close>

definition verify :: "body \<Rightarrow> fs \<Rightarrow> verify_response" where
  "verify b s =
     (if \<not> truthy (fileHash b) \<or> \<not> truthy (fileName b) then VerifyBadRequest
      else case path_join (fileName b) of
        None \<Rightarrow> VerifyFailed TypeError
      | Some name \<Rightarrow>
          (case uploads s name of
             None \<Rightarrow> VerifyNotFound
           | Some content \<Rightarrow>
               (case calculateFileHash (createReadStream (Some content)) of
                  Pending \<Rightarrow> VerifyNoResponse
                | Rejected e \<Rightarrow> VerifyFailed e
                | Resolved actualHash \<Rightarrow>
                    (case fileHash b of
                       JString fh \<Rightarrow>
                         if actualHash = replace_temp_prefix fh \<or> fh = actualHash
                         then VerifyPassed
                         else VerifyMismatch (replace_temp_prefix fh) actualHash
                     | _ \<Rightarrow> VerifyFailed TypeError))))"

fun verified_field :: "verify_response \<Rightarrow> bool option" where
  "verified_field VerifyPassed = Some True"
| "verified_field (VerifyMismatch e a) = Some False"
| "verified_field VerifyNotFound = Some False"
| "verified_field (VerifyFailed e) = Some False"
| "verified_field _ = None"

section \<open>Numbers, parseInt and Array.prototype.sort\<close>

text \<open>
  The Number values that the comparator of /merge can produce: \<^verbatim>\<open>NaN\<close>, an integer
  that a double holds exactly, and the infinities.
\<close>

datatype jsnum = NaN | Fin int | PInf | NInf

function bit_length :: "nat \<Rightarrow> nat" where
  "bit_length n = (if n = 0 then 0 else Suc (bit_length (n div 2)))"
  by pat_completeness auto
termination
  by (relation "measure id") auto

declare bit_length.simps [simp del]

text \<open>
  The double nearest to a natural number (ties to even); \<open>None\<close> when it rounds to
  \<^verbatim>\<open>Infinity\<close>. Up to \<open>2 ^ 53\<close> every natural number is a double.
\<close>

definition round_double :: "nat \<Rightarrow> nat option" where
  "round_double n =
     (if n < 2 ^ 53 then Some n
      else let e = bit_length n - 53;
               q = n div 2 ^ e;
               r = n mod 2 ^ e;
               q' = (if 2 ^ (e - 1) < r \<or> (r = 2 ^ (e - 1) \<and> odd q) then q + 1 else q)
           in if 2 ^ 1024 \<le> q' * 2 ^ e then None else Some (q' * 2 ^ e))"

definition to_number :: "int \<Rightarrow> jsnum" where
  "to_number i =
     (case round_double (nat \<bar>i\<bar>) of
        None \<Rightarrow> if i < 0 then NInf else PInf
      | Some m \<Rightarrow> Fin (if i < 0 then - int m else int m))"

fun js_sub :: "jsnum \<Rightarrow> jsnum \<Rightarrow> jsnum" where
  "js_sub NaN y = NaN"
| "js_sub x NaN = NaN"
| "js_sub PInf PInf = NaN"
| "js_sub NInf NInf = NaN"
| "js_sub PInf y = PInf"
| "js_sub NInf y = NInf"
| "js_sub (Fin a) PInf = NInf"
| "js_sub (Fin a) NInf = PInf"
| "js_sub (Fin a) (Fin b) = to_number (a - b)"

definition is_white :: "char \<Rightarrow> bool" where
  "is_white c = ((of_char c :: nat) \<in> {9, 10, 11, 12, 13, 32})"

definition digit_of :: "char \<Rightarrow> nat option" where
  "digit_of c =
     (let n = (of_char c :: nat) in
      if 48 \<le> n \<and> n \<le> 57 then Some (n - 48)
      else if 97 \<le> n \<and> n \<le> 122 then Some (n - 87)
      else if 65 \<le> n \<and> n \<le> 90 then Some (n - 55)
      else None)"

definition is_radix_digit :: "nat \<Rightarrow> char \<Rightarrow> bool" where
  "is_radix_digit R c = (case digit_of c of Some d \<Rightarrow> d < R | None \<Rightarrow> False)"

definition digits_value :: "nat \<Rightarrow> string \<Rightarrow> nat" where
  "digits_value R z = foldl (\<lambda>acc c. acc * R + (case digit_of c of Some d \<Rightarrow> d | None \<Rightarrow> 0)) 0 z"

text \<open>
  \<^verbatim>\<open>parseInt(string)\<close> with no radix, on an ASCII string: leading white space is
  dropped, then a sign, then \<^verbatim>\<open>0x\<close> or \<^verbatim>\<open>0X\<close> (which selects radix 16); the longest
  run of digits is read, and the result is \<^verbatim>\<open>NaN\<close> when that run is empty. The value
  read is then rounded to a Number (ECMAScript lets an engine approximate the digits after
  the 20th; the rounding written here is the exact one).
\<close>

definition strip_sign :: "string \<Rightarrow> bool \<times> string" where
  "strip_sign t =
     (case t of
        [] \<Rightarrow> (False, t)
      | c # r \<Rightarrow> if c = CHR ''-'' then (True, r) else if c = CHR ''+'' then (False, r) else (False, t))"

definition strip_radix :: "string \<Rightarrow> nat \<times> string" where
  "strip_radix u = (if take 2 u = ''0x'' \<or> take 2 u = ''0X'' then (16, drop 2 u) else (10, u))"

definition parseInt :: "string \<Rightarrow> jsnum" where
  "parseInt s =
     (let neg = fst (strip_sign (dropWhile is_white s));
          R = fst (strip_radix (snd (strip_sign (dropWhile is_white s))));
          z = takeWhile (is_radix_digit R) (snd (strip_radix (snd (strip_sign (dropWhile is_white s)))))
      in if z = [] then NaN
         else to_number (if neg then - int (digits_value R z) else int (digits_value R z)))"

text \<open>\<^verbatim>\<open>a.split('-')[0]\<close>: the part of the key before its first \<^verbatim>\<open>-\<close>.\<close>

definition split_index :: "string \<Rightarrow> string" where
  "split_index a = takeWhile (\<lambda>c. c \<noteq> CHR ''-'') a"

text \<open>The comparator handed to \<^verbatim>\<open>chunks.sort\<close>.\<close>

definition compareFn :: "string \<Rightarrow> string \<Rightarrow> jsnum" where
  "compareFn a b = js_sub (parseInt (split_index a)) (parseInt (split_index b))"

text \<open>
  \<^verbatim>\<open>Array.prototype.sort\<close> reads the comparator's result through \<^verbatim>\<open>SortCompare\<close>,
  where \<^verbatim>\<open>NaN\<close> counts as \<open>0\<close>, and is stable. With a consistent comparator every
  stable sort gives the same array; insertion from the right is the one written here.
\<close>

fun sort_compare :: "('a \<Rightarrow> 'a \<Rightarrow> jsnum) \<Rightarrow> 'a \<Rightarrow> 'a \<Rightarrow> int" where
  "sort_compare cmp x y =
     (case cmp x y of NaN \<Rightarrow> 0 | Fin v \<Rightarrow> sgn v | PInf \<Rightarrow> 1 | NInf \<Rightarrow> - 1)"

fun sort_insert :: "('a \<Rightarrow> 'a \<Rightarrow> jsnum) \<Rightarrow> 'a \<Rightarrow> 'a list \<Rightarrow> 'a list" where
  "sort_insert cmp x [] = [x]"
| "sort_insert cmp x (y # ys) =
     (if 0 < sort_compare cmp x y then y # sort_insert cmp x ys else x # y # ys)"

definition js_sort :: "('a \<Rightarrow> 'a \<Rightarrow> jsnum) \<Rightarrow> 'a list \<Rightarrow> 'a list" where
  "js_sort cmp xs = foldr (sort_insert cmp) xs []"

section \<open>POST /upload\<close>

datatype upload_response =
    UploadBadRequest      \<comment> \<open>400, code 1\<close>
  | UploadOk              \<comment> \<open>200, code 0\<close>
  | UploadFailed error    \<comment> \<open>500, code 1\<close>

text \<open>
  The handler behind \<^verbatim>\<open>upload.single('chunk')\<close>: \<^verbatim>\<open>req.file\<close> is the file part named
  \<^verbatim>\<open>chunk\<close> that multer has buffered, or \<^verbatim>\<open>undefined\<close> when the request has none.
\<close>

definition mkdir_if_absent :: "string \<Rightarrow> fs \<Rightarrow> fs" where
  "mkdir_if_absent h s =
     (case chunks s h of None \<Rightarrow> s\<lparr>chunks := (chunks s)(h \<mapsto> [])\<rparr> | Some d \<Rightarrow> s)"

definition upload :: "body \<Rightarrow> bytes option \<Rightarrow> fs \<Rightarrow> upload_response \<times> fs" where
  "upload b file s =
     (if \<not> truthy (hash b) \<or> \<not> truthy (fileHash b) then (UploadBadRequest, s)
      else case path_join (fileHash b) of
        None \<Rightarrow> (UploadFailed TypeError, s)
      | Some h \<Rightarrow>
          (case path_join (hash b) of
             None \<Rightarrow> (UploadFailed TypeError, mkdir_if_absent h s)
           | Some k \<Rightarrow>
               (case file of
                  None \<Rightarrow> (UploadFailed TypeError, mkdir_if_absent h s)
                | Some buffer \<Rightarrow>
                    (UploadOk,
                     s\<lparr>chunks := (chunks s)(h \<mapsto>
                          writeFileSync k buffer (case chunks s h of None \<Rightarrow> [] | Some d \<Rightarrow> d))\<rparr>))))"

text \<open>The chunk directory of a \<^verbatim>\<open>fileHash\<close>, empty when there is none.\<close>

definition stored :: "fs \<Rightarrow> string \<Rightarrow> directory" where
  "stored s h = (case chunks s h of None \<Rightarrow> [] | Some d \<Rightarrow> d)"


text \<open>A client that sends the chunks of a list one by one, each under its key.\<close>

definition upload_chunks :: "string \<Rightarrow> (string \<times> bytes) list \<Rightarrow> fs \<Rightarrow> fs" where
  "upload_chunks h kbs s =
     fold (\<lambda>kb s. snd (upload \<lparr>fileHash = JString h, fileName = JUndefined,
                                sizeField = JUndefined, hash = JString (fst kb)\<rparr>
                        (Some (snd kb)) s)) kbs s"

section \<open>POST /merge\<close>

datatype merge_response =
    MergeBadRequest       \<comment> \<open>400, code 1, missing fileHash or fileName\<close>
  | MergeNoChunkDir       \<comment> \<open>400, code 1, no chunk directory\<close>
  | MergeNoChunkFiles     \<comment> \<open>400, code 1, the chunk directory is empty\<close>
  | MergeOk string        \<comment> \<open>200, code 0, url /uploads/fileName\<close>
  | MergeFailed error     \<comment> \<open>500, code 1\<close>

text \<open>
  The loop over the sorted keys: read the chunk, append it to the write stream, unlink
  it. A chunk that is gone makes \<^verbatim>\<open>readFile\<close> throw, which ends the loop with what has
  been written so far.
\<close>

fun merge_loop :: "string list \<Rightarrow> bytes \<Rightarrow> directory \<Rightarrow> bool \<times> bytes \<times> directory" where
  "merge_loop [] out d = (True, out, d)"
| "merge_loop (c # cs) out d =
     (case readFile d c of
        None \<Rightarrow> (False, out, d)
      | Some buffer \<Rightarrow> merge_loop cs (out @ buffer) (unlink c d))"

definition merge :: "body \<Rightarrow> fs \<Rightarrow> merge_response \<times> fs" where
  "merge b s =
     (if \<not> truthy (fileHash b) \<or> \<not> truthy (fileName b) then (MergeBadRequest, s)
      else case path_join (fileHash b) of
        None \<Rightarrow> (MergeFailed TypeError, s)
      | Some h \<Rightarrow>
          (case path_join (fileName b) of
             None \<Rightarrow> (MergeFailed TypeError, s)
           | Some name \<Rightarrow>
               (case chunks s h of
                  None \<Rightarrow> (MergeNoChunkDir, s)
                | Some d \<Rightarrow>
                    if readdir d = [] then (MergeNoChunkFiles, s)
                    else
                      (case merge_loop (js_sort compareFn (readdir d)) [] d of
                         (ok, out, d') \<Rightarrow>
                           (if ok then MergeOk name else MergeFailed ENOENT,
                            s\<lparr>uploads := (uploads s)(name \<mapsto> out),
                              chunks := (chunks s)(h \<mapsto> d')\<rparr>)))))"

text \<open>
  The timer that /merge sets: one second later \<^verbatim>\<open>rmdir\<close> removes the chunk directory
  if it is empty; a failure is only logged.
\<close>

definition rmdir_later :: "string \<Rightarrow> fs \<Rightarrow> fs" where
  "rmdir_later h s =
     (case chunks s h of Some [] \<Rightarrow> s\<lparr>chunks := (chunks s)(h := None)\<rparr> | _ \<Rightarrow> s)"

section \<open>The /merge handler between its awaits\<close>

text \<open>
  The handler is an \<^verbatim>\<open>async\<close> function: it gives up control at each \<^verbatim>\<open>await\<close>, and
  other requests run in between. A task is what is left of one call: it has not begun,
  or it waits for \<^verbatim>\<open>readdir\<close>, for the \<^verbatim>\<open>readFile\<close> or for the \<^verbatim>\<open>unlink\<close> of the
  first of the chunks still to be merged (with the offset of its write stream), or it has
  answered 200 and its cleanup timer is pending, or it is over.
\<close>

datatype task =
    Start body
  | AwaitReaddir string string
  | AwaitReadFile string string "string list" nat
  | AwaitUnlink string string "string list" nat
  | TimerPending string string
  | Done merge_response

text \<open>
  Each write stream has its own file descriptor and offset; \<^verbatim>\<open>createWriteStream\<close>
  truncates the file. Writing beyond the end of the file fills the gap with zero bytes.
\<close>

definition write_at :: "nat \<Rightarrow> bytes \<Rightarrow> bytes \<Rightarrow> bytes" where
  "write_at pos buffer content =
     take pos (content @ replicate (pos - length content) (CHR 0x00)) @ buffer
       @ drop (pos + length buffer) content"

text \<open>
  One step of a task: the awaited operation takes effect, and the handler runs up to
  its next \<^verbatim>\<open>await\<close>.
\<close>

fun task_step :: "task \<Rightarrow> fs \<Rightarrow> task \<times> fs" where
  "task_step (Start b) s =
     (if \<not> truthy (fileHash b) \<or> \<not> truthy (fileName b) then (Done MergeBadRequest, s)
      else case path_join (fileHash b) of
        None \<Rightarrow> (Done (MergeFailed TypeError), s)
      | Some h \<Rightarrow>
          (case path_join (fileName b) of
             None \<Rightarrow> (Done (MergeFailed TypeError), s)
           | Some name \<Rightarrow>
               (case chunks s h of
                  None \<Rightarrow> (Done MergeNoChunkDir, s)
                | Some d \<Rightarrow> (AwaitReaddir h name, s))))"
| "task_step (AwaitReaddir h name) s =
     (case chunks s h of
        None \<Rightarrow> (Done (MergeFailed ENOENT), s)
      | Some d \<Rightarrow>
          if readdir d = [] then (Done MergeNoChunkFiles, s)
          else (AwaitReadFile h name (js_sort compareFn (readdir d)) 0,
                s\<lparr>uploads := (uploads s)(name \<mapsto> [])\<rparr>))"
| "task_step (AwaitReadFile h name [] pos) s = (TimerPending h name, s)"
| "task_step (AwaitReadFile h name (c # cs) pos) s =
     (case readFile (stored s h) c of
        None \<Rightarrow> (Done (MergeFailed ENOENT), s)
      | Some buffer \<Rightarrow>
          (AwaitUnlink h name (c # cs) (pos + length buffer),
           s\<lparr>uploads := (uploads s)(name \<mapsto>
                write_at pos buffer (case uploads s name of None \<Rightarrow> [] | Some x \<Rightarrow> x))\<rparr>))"
| "task_step (AwaitUnlink h name [] pos) s = (TimerPending h name, s)"
| "task_step (AwaitUnlink h name (c # cs) pos) s =
     (if c \<notin> set (readdir (stored s h)) then (Done (MergeFailed ENOENT), s)
      else (if cs = [] then TimerPending h name else AwaitReadFile h name cs pos,
            s\<lparr>chunks := (chunks s)(h \<mapsto> unlink c (stored s h))\<rparr>))"
| "task_step (TimerPending h name) s = (Done (MergeOk name), rmdir_later h s)"
| "task_step (Done r) s = (Done r, s)"

text \<open>
  A configuration is the file system and the calls in flight; a schedule names, step
  by step, the call that runs next. \<open>solo\<close> runs one task alone.
\<close>

fun step :: "nat \<Rightarrow> fs \<times> task list \<Rightarrow> fs \<times> task list" where
  "step i (s, ts) =
     (if i < length ts then (snd (task_step (ts ! i) s), ts[i := fst (task_step (ts ! i) s)])
      else (s, ts))"


definition run :: "nat list \<Rightarrow> fs \<times> task list \<Rightarrow> fs \<times> task list" where
  "run sched cfg = fold step sched cfg"

section \<open>Chunk keys with a numeric leading segment\<close>

text \<open>
  The ordering index that a chunk key encodes: the decimal value of its leading
  segment. A key is numeric when that segment is a non-empty run of decimal digits whose
  value is at most \<open>2 ^ 53\<close>, the range in which a Number holds every integer exactly.
\<close>

definition chunk_index :: "string \<Rightarrow> nat" where
  "chunk_index k = digits_value 10 (split_index k)"

definition numeric_key :: "string \<Rightarrow> bool" where
  "numeric_key k =
     (split_index k \<noteq> [] \<and> list_all is_dec_digit (split_index k) \<and> chunk_index k \<le> 2 ^ 53)"

text \<open>
  The specification's artifact for a set of chunks: their bytes, concatenated in
  ascending order of the index of their keys.
\<close>

definition ascending_bytes :: "directory \<Rightarrow> bytes" where
  "ascending_bytes d = concat (map snd (sort_key (\<lambda>p. chunk_index (fst p)) d))"

section \<open>Properties of /check-file\<close>




text \<open>
  Claim C9. For a request with a truthy \<^verbatim>\<open>fileHash\<close> and a non-empty string
  \<^verbatim>\<open>fileName\<close> whose declared size is falsy (0, absent, \<^verbatim>\<open>null\<close>, \<^verbatim>\<open>false\<close> or the
  empty string), the answer is \<open>exists = false\<close> whatever the completed store holds, also
  when it holds a zero-byte file of that name and the declared size is 0.
\<close>

theorem check_file_falsy_size:
  assumes "truthy (fileHash b)" and "fileName b = JString name" and "name \<noteq> []"
    and "\<not> truthy (sizeField b)"
  shows "check_file b s = CheckAbsent"
  using assms
  by (auto simp: check_file_def split: option.splits)

theorem check_file_falsy_size_witness:
  "check_file
      \<lparr>fileHash = JString ''H1'', fileName = JString ''empty.bin'', sizeField = JInt 0,
       hash = JUndefined\<rparr>
      \<lparr>uploads = [''empty.bin'' \<mapsto> ''''], chunks = Map.empty\<rparr> = CheckAbsent
   \<and> length (the (uploads \<lparr>uploads = [''empty.bin'' \<mapsto> ''''], chunks = Map.empty\<rparr>
        ''empty.bin'')) = 0"
  using check_file_falsy_size [of
      "\<lparr>fileHash = JString ''H1'', fileName = JString ''empty.bin'', sizeField = JInt 0,
        hash = JUndefined\<rparr>" "''empty.bin''"
      "\<lparr>uploads = [''empty.bin'' \<mapsto> ''''], chunks = Map.empty\<rparr>"]
  by simp

section \<open>parseInt and the comparator on numeric keys\<close>

lemma dec_digit_facts:
  assumes "is_dec_digit c"
  shows "is_radix_digit 10 c" and "\<not> is_white c" and "c \<noteq> CHR ''-''" and "c \<noteq> CHR ''+''"
    and "c \<noteq> CHR ''x''" and "c \<noteq> CHR ''X''"
  using assms
  by (auto simp: is_dec_digit_def is_radix_digit_def digit_of_def is_white_def Let_def)

lemma takeWhile_all: "list_all P xs \<Longrightarrow> takeWhile P xs = xs"
  by (induction xs) auto

lemma parseInt_digits:
  assumes "seg \<noteq> []" and "list_all is_dec_digit seg"
  shows "parseInt seg = to_number (int (digits_value 10 seg))"
proof -
  from assms obtain c r where seg: "seg = c # r" and c: "is_dec_digit c" and r: "list_all is_dec_digit r"
    by (cases seg) auto
  have white: "dropWhile is_white seg = seg"
    using c by (simp add: seg dec_digit_facts)
  have sign: "strip_sign seg = (False, seg)"
    using c by (simp add: seg strip_sign_def dec_digit_facts)
  have "take 2 seg \<noteq> ''0x''" "take 2 seg \<noteq> ''0X''"
    using r by (cases r; auto simp: seg dec_digit_facts)+
  then have radix: "strip_radix seg = (10, seg)"
    by (simp add: strip_radix_def)
  have "list_all (is_radix_digit 10) seg"
    using assms(2) by (induction seg) (auto simp: dec_digit_facts)
  then have run: "takeWhile (is_radix_digit 10) seg = seg"
    by (rule takeWhile_all)
  show ?thesis
    using assms(1) by (simp add: parseInt_def white sign radix run)
qed

lemma bit_length_numeral:
  "bit_length (numeral k) = Suc (bit_length (numeral k div 2))"
  by (subst bit_length.simps) simp

lemma bit_length_small: "bit_length 0 = 0" "bit_length (Suc 0) = Suc 0"
  by (simp_all add: bit_length.simps)

lemma round_double_exact: "n \<le> 2 ^ 53 \<Longrightarrow> round_double n = Some n"
proof (cases "n < 2 ^ 53")
  case True
  then show ?thesis by (simp add: round_double_def)
next
  case False
  moreover assume "n \<le> 2 ^ 53"
  ultimately have n: "n = 9007199254740992"
    by simp
  have "bit_length 9007199254740992 = 54"
    by (simp add: bit_length_numeral bit_length_small)
  then show ?thesis
    unfolding n by (simp add: round_double_def Let_def)
qed

lemma to_number_exact: "\<bar>i\<bar> \<le> 2 ^ 53 \<Longrightarrow> to_number i = Fin i"
proof -
  assume "\<bar>i\<bar> \<le> 2 ^ 53"
  then have "nat \<bar>i\<bar> \<le> 2 ^ 53"
    by (simp add: nat_le_iff)
  then have "round_double (nat \<bar>i\<bar>) = Some (nat \<bar>i\<bar>)"
    by (rule round_double_exact)
  then show ?thesis
    by (auto simp: to_number_def)
qed

lemma parseInt_numeric_key:
  "numeric_key k \<Longrightarrow> parseInt (split_index k) = Fin (int (chunk_index k))"
  by (simp add: numeric_key_def parseInt_digits chunk_index_def to_number_exact)

lemma abs_diff_le: "a \<le> n \<Longrightarrow> b \<le> n \<Longrightarrow> \<bar>int a - int b\<bar> \<le> int n"
  by linarith

lemma compareFn_numeric:
  assumes "numeric_key a" and "numeric_key b"
  shows "compareFn a b = Fin (int (chunk_index a) - int (chunk_index b))"
proof -
  have "chunk_index a \<le> 2 ^ 53" "chunk_index b \<le> 2 ^ 53"
    using assms by (simp_all add: numeric_key_def)
  then have "\<bar>int (chunk_index a) - int (chunk_index b)\<bar> \<le> int (2 ^ 53)"
    by (rule abs_diff_le)
  then have "\<bar>int (chunk_index a) - int (chunk_index b)\<bar> \<le> 2 ^ 53"
    by simp
  then show ?thesis
    using assms by (simp add: compareFn_def parseInt_numeric_key to_number_exact)
qed

lemma sort_compare_numeric:
  "numeric_key a \<Longrightarrow> numeric_key b \<Longrightarrow>
     (0 < sort_compare compareFn a b) = (chunk_index b < chunk_index a)"
  by (simp add: compareFn_numeric)

lemma sort_insert_numeric:
  "numeric_key x \<Longrightarrow> list_all numeric_key ys \<Longrightarrow>
     sort_insert compareFn x ys = insort_key chunk_index x ys"
  by (induction ys) (auto simp: sort_compare_numeric simp del: sort_compare.simps)

lemma js_sort_numeric:
  "list_all numeric_key xs \<Longrightarrow> js_sort compareFn xs = sort_key chunk_index xs"
proof (induction xs)
  case Nil
  then show ?case by (simp add: js_sort_def)
next
  case (Cons x xs)
  then have "list_all numeric_key (sort_key chunk_index xs)"
    by (simp add: list_all_iff)
  with Cons show ?case
    by (simp add: js_sort_def sort_insert_numeric sort_key_def)
qed

section \<open>The merge loop\<close>

lemma set_sort_insert: "set (sort_insert cmp x ys) = insert x (set ys)"
  by (induction ys) auto

lemma distinct_sort_insert: "distinct (sort_insert cmp x ys) = (x \<notin> set ys \<and> distinct ys)"
  by (induction ys) (auto simp: set_sort_insert)

lemma set_js_sort: "set (js_sort cmp xs) = set xs"
  by (induction xs) (auto simp: js_sort_def set_sort_insert)

lemma distinct_js_sort: "distinct (js_sort cmp xs) = distinct xs"
  by (induction xs) (auto simp: js_sort_def distinct_sort_insert set_sort_insert set_js_sort [unfolded js_sort_def])

lemma merge_loop_all:
  "distinct (map fst d) \<Longrightarrow> distinct cs \<Longrightarrow> set cs \<subseteq> fst ` set d \<Longrightarrow>
     merge_loop cs out d =
       (True, out @ concat (map (\<lambda>c. the (map_of d c)) cs), filter (\<lambda>p. fst p \<notin> set cs) d)"
proof (induction cs arbitrary: out d)
  case Nil
  then show ?case by simp
next
  case (Cons c cs)
  from Cons.prems obtain v where v: "map_of d c = Some v"
    by (auto simp: weak_map_of_SomeI map_of_eq_None_iff [symmetric])
  have d': "distinct (map fst (AList.delete c d))"
    using Cons.prems(1) by (rule distinct_delete)
  have sub: "set cs \<subseteq> fst ` set (AList.delete c d)"
  proof -
    have "fst ` set (AList.delete c d) = set (map fst d) - {c}"
      by (simp add: delete_keys flip: set_map)
    then show ?thesis
      using Cons.prems(2,3) by auto
  qed
  have same: "map (\<lambda>k. the (map_of (AList.delete c d) k)) cs = map (\<lambda>k. the (map_of d k)) cs"
    using Cons.prems(2) by (auto simp: delete_conv')
  have "filter (\<lambda>p. fst p \<notin> set cs) (AList.delete c d) = filter (\<lambda>p. fst p \<notin> set (c # cs)) d"
    by (induction d) auto
  with Cons.IH [OF d' _ sub] Cons.prems(2) v same show ?case
    by (simp add: readFile_def unlink_def)
qed

lemma merge_any_listing:
  assumes "fileHash b = JString h" and "h \<noteq> []" and "fileName b = JString name" and "name \<noteq> []"
    and "chunks s h = Some d" and "d \<noteq> []" and "distinct (map fst d)"
  shows "merge b s =
           (MergeOk name,
            s\<lparr>uploads := (uploads s)(name \<mapsto>
                 concat (map (\<lambda>c. the (map_of d c)) (js_sort compareFn (readdir d)))),
              chunks := (chunks s)(h \<mapsto> [])\<rparr>)"
proof -
  let ?ks = "js_sort compareFn (readdir d)"
  have "distinct ?ks" "set ?ks \<subseteq> fst ` set d"
    using assms(7) by (simp_all add: distinct_js_sort set_js_sort readdir_def)
  then have "merge_loop ?ks [] d =
      (True, concat (map (\<lambda>c. the (map_of d c)) ?ks), filter (\<lambda>p. fst p \<notin> set ?ks) d)"
    using merge_loop_all [OF assms(7), of ?ks "[]"] by simp
  moreover have "filter (\<lambda>p. fst p \<notin> set ?ks) d = []"
    by (auto simp: set_js_sort readdir_def filter_empty_conv)
  ultimately show ?thesis
    using assms by (simp add: merge_def readdir_def)
qed

lemma map_of_the: "distinct (map fst d) \<Longrightarrow> p \<in> set d \<Longrightarrow> the (map_of d (fst p)) = snd p"
  by (cases p) simp

lemma insort_key_map_fst:
  "map fst (insort_key (\<lambda>p. f (fst p)) x d) = insort_key f (fst x) (map fst d)"
  by (induction d) auto

lemma sort_key_map_fst:
  "map fst (sort_key (\<lambda>p. f (fst p)) d) = sort_key f (map fst d)"
  by (induction d) (auto simp: insort_key_map_fst)

lemma sort_key_inj_unique:
  assumes "inj_on g (set xs)" and "distinct xs" and "distinct ys" and "set ys = set xs"
  shows "sort_key g ys = sort_key g xs"
proof -
  have "distinct (map g (sort_key g xs))" "distinct (map g (sort_key g ys))"
    using assms by (simp_all add: distinct_map)
  moreover have "sorted (map g (sort_key g xs))" "sorted (map g (sort_key g ys))"
    by simp_all
  moreover have "set (map g (sort_key g ys)) = set (map g (sort_key g xs))"
    using assms(4) by simp
  ultimately have "map g (sort_key g ys) = map g (sort_key g xs)"
    by (metis sorted_distinct_set_unique)
  moreover have "inj_on g (set (sort_key g ys) \<union> set (sort_key g xs))"
    using assms(1,4) by simp
  ultimately show ?thesis
    by (simp add: inj_on_map_eq_map)
qed

lemma ascending_bytes_listing:
  assumes "distinct (map fst d)" and "list_all numeric_key (map fst d)"
  shows "concat (map (\<lambda>c. the (map_of d c)) (js_sort compareFn (readdir d))) = ascending_bytes d"
proof -
  have "map (\<lambda>c. the (map_of d c)) (map fst (sort_key (\<lambda>p. chunk_index (fst p)) d))
        = map snd (sort_key (\<lambda>p. chunk_index (fst p)) d)"
    using assms(1) by (simp add: map_of_the)
  then show ?thesis
    using assms(2)
    by (simp add: js_sort_numeric readdir_def ascending_bytes_def sort_key_map_fst del: map_map)
qed

lemma ascending_bytes_order_free:
  assumes "distinct (map fst d)" and "inj_on chunk_index (set (map fst d))"
    and "distinct (map fst d')" and "set d' = set d"
  shows "ascending_bytes d' = ascending_bytes d"
proof -
  have "inj_on fst (set d)"
    using assms(1) by (simp add: distinct_map)
  with assms(2) have "inj_on (\<lambda>p. chunk_index (fst p)) (set d)"
    by (auto simp: inj_on_def)
  moreover have "distinct d" "distinct d'"
    using assms(1,3) by (auto simp: distinct_map)
  ultimately have "sort_key (\<lambda>p. chunk_index (fst p)) d' = sort_key (\<lambda>p. chunk_index (fst p)) d"
    using assms(4) by (intro sort_key_inj_unique)
  then show ?thesis
    by (simp add: ascending_bytes_def)
qed

section \<open>Properties of /merge: the order of the chunks\<close>

lemma chunk_index_eval:
  "chunk_index ''0-a'' = 0" "chunk_index ''1-b'' = 1" "chunk_index ''2-c'' = 2"
  by (simp_all add: chunk_index_def split_index_def digits_value_def digit_of_def)

lemma numeric_key_eval:
  "numeric_key ''0-a''" "numeric_key ''1-b''" "numeric_key ''2-c''"
  by (simp_all add: numeric_key_def chunk_index_eval) (simp_all add: split_index_def is_dec_digit_def)










section \<open>Properties of /merge: keys that share an index\<close>







section \<open>Properties of /merge: no chunks\<close>

text \<open>
  Claim C4. When the \<^verbatim>\<open>fileHash\<close> has no chunk directory, or an empty one, /merge
  answers 400 with the no-chunks error of that case and changes nothing: no artifact is
  created and the completed store is as before.
\<close>

theorem merge_without_chunks:
  assumes "fileHash b = JString h" and "h \<noteq> []" and "fileName b = JString name" and "name \<noteq> []"
    and "chunks s h = None \<or> chunks s h = Some []"
  shows "merge b s = (if chunks s h = None then MergeNoChunkDir else MergeNoChunkFiles, s)"
  using assms by (auto simp: merge_def readdir_def)

theorem merge_without_chunks_witness:
  "merge \<lparr>fileHash = JString ''H1'', fileName = JString ''f.bin'', sizeField = JInt 6,
          hash = JUndefined\<rparr>
     \<lparr>uploads = [''g.bin'' \<mapsto> ''XY''], chunks = Map.empty\<rparr>
     = (MergeNoChunkDir, \<lparr>uploads = [''g.bin'' \<mapsto> ''XY''], chunks = Map.empty\<rparr>)
   \<and> merge \<lparr>fileHash = JString ''H1'', fileName = JString ''f.bin'', sizeField = JInt 6,
          hash = JUndefined\<rparr>
     \<lparr>uploads = [''g.bin'' \<mapsto> ''XY''], chunks = [''H1'' \<mapsto> []]\<rparr>
     = (MergeNoChunkFiles, \<lparr>uploads = [''g.bin'' \<mapsto> ''XY''], chunks = [''H1'' \<mapsto> []]\<rparr>)"
  using merge_without_chunks [of
      "\<lparr>fileHash = JString ''H1'', fileName = JString ''f.bin'', sizeField = JInt 6,
        hash = JUndefined\<rparr>" "''H1''" "''f.bin''"
      "\<lparr>uploads = [''g.bin'' \<mapsto> ''XY''], chunks = Map.empty\<rparr>"]
    merge_without_chunks [of
      "\<lparr>fileHash = JString ''H1'', fileName = JString ''f.bin'', sizeField = JInt 6,
        hash = JUndefined\<rparr>" "''H1''" "''f.bin''"
      "\<lparr>uploads = [''g.bin'' \<mapsto> ''XY''], chunks = [''H1'' \<mapsto> []]\<rparr>"]
  by simp

section \<open>Properties of /upload\<close>

lemma upload_chunk:
  assumes "fileHash b = JString h" and "h \<noteq> []" and "hash b = JString k" and "k \<noteq> []"
  shows "upload b (Some buf) s =
           (UploadOk, s\<lparr>chunks := (chunks s)(h \<mapsto> AList.update k buf (stored s h))\<rparr>)"
  using assms by (simp add: upload_def writeFileSync_def stored_def)






text \<open>
  Claim C10. A request with \<^verbatim>\<open>hash\<close> and \<^verbatim>\<open>fileHash\<close> but no file part is answered
  500; no chunk is written and the completed store is untouched, but the chunk directory
  of the \<^verbatim>\<open>fileHash\<close> exists afterwards, so the chunk store has changed when it did not
  exist before.
\<close>

theorem upload_without_file:
  assumes "truthy (hash b)" and "fileHash b = JString h" and "h \<noteq> []"
  shows "fst (upload b None s) = UploadFailed TypeError
    \<and> uploads (snd (upload b None s)) = uploads s
    \<and> chunks (snd (upload b None s))
        = (chunks s)(h \<mapsto> (case chunks s h of None \<Rightarrow> [] | Some d \<Rightarrow> d))
    \<and> (chunks s h = None \<longrightarrow> snd (upload b None s) \<noteq> s)"
proof -
  have "upload b None s = (UploadFailed TypeError, mkdir_if_absent h s)"
    using assms by (auto simp: upload_def split: option.splits)
  moreover have "chunks s h = None \<Longrightarrow> chunks (mkdir_if_absent h s) h \<noteq> chunks s h"
    by (simp add: mkdir_if_absent_def)
  then have "chunks s h = None \<Longrightarrow> mkdir_if_absent h s \<noteq> s"
    by auto
  ultimately show ?thesis
    by (auto simp: mkdir_if_absent_def split: option.splits)
qed

theorem upload_without_file_witness:
  "fst (upload \<lparr>fileHash = JString ''H1'', fileName = JUndefined, sizeField = JUndefined,
                hash = JString ''0-a''\<rparr> None \<lparr>uploads = Map.empty, chunks = Map.empty\<rparr>)
     = UploadFailed TypeError
   \<and> chunks (snd (upload \<lparr>fileHash = JString ''H1'', fileName = JUndefined,
                sizeField = JUndefined, hash = JString ''0-a''\<rparr> None
                \<lparr>uploads = Map.empty, chunks = Map.empty\<rparr>)) = [''H1'' \<mapsto> []]
   \<and> snd (upload \<lparr>fileHash = JString ''H1'', fileName = JUndefined,
                sizeField = JUndefined, hash = JString ''0-a''\<rparr> None
                \<lparr>uploads = Map.empty, chunks = Map.empty\<rparr>)
     \<noteq> \<lparr>uploads = Map.empty, chunks = Map.empty\<rparr>"
  using upload_without_file [of
      "\<lparr>fileHash = JString ''H1'', fileName = JUndefined, sizeField = JUndefined,
        hash = JString ''0-a''\<rparr>" "''H1''" "\<lparr>uploads = Map.empty, chunks = Map.empty\<rparr>"]
  by simp

section \<open>Uploading the chunks in any order\<close>

text \<open>
  In this model a new chunk is listed after those already there, so the order of the
  uploads is the order of the listing. Whatever that order, the merge of chunks with
  numeric keys of different indices gives the same artifact.
\<close>

lemma update_new_key: "k \<notin> fst ` set d \<Longrightarrow> AList.update k v d = d @ [(k, v)]"
  by (induction d) auto

lemma numeric_key_nonempty: "numeric_key k \<Longrightarrow> k \<noteq> []"
  by (auto simp: numeric_key_def split_index_def)

lemma upload_chunks_listing:
  assumes "h \<noteq> []" and "list_all (\<lambda>k. k \<noteq> []) (map fst kbs)" and "kbs \<noteq> []"
    and "distinct (map fst (stored s h @ kbs))"
  shows "upload_chunks h kbs s = s\<lparr>chunks := (chunks s)(h \<mapsto> stored s h @ kbs)\<rparr>"
  using assms
proof (induction kbs arbitrary: s)
  case Nil
  then show ?case by simp
next
  case (Cons kb kbs)
  let ?b = "\<lparr>fileHash = JString h, fileName = JUndefined, sizeField = JUndefined,
              hash = JString (fst kb)\<rparr>"
  let ?s1 = "s\<lparr>chunks := (chunks s)(h \<mapsto> stored s h @ [kb])\<rparr>"
  have new: "fst kb \<notin> fst ` set (stored s h)"
    using Cons.prems(4) by auto
  have "upload ?b (Some (snd kb)) s
      = (UploadOk, s\<lparr>chunks := (chunks s)(h \<mapsto> AList.update (fst kb) (snd kb) (stored s h))\<rparr>)"
    using Cons.prems(1,2) by (intro upload_chunk) simp_all
  then have first: "snd (upload ?b (Some (snd kb)) s) = ?s1"
    using new by (simp add: update_new_key)
  have unfold: "upload_chunks h (kb # kbs) s = upload_chunks h kbs ?s1"
    by (simp add: upload_chunks_def first)
  have st: "stored ?s1 h = stored s h @ [kb]"
    by (simp add: stored_def)
  show ?case
  proof (cases "kbs = []")
    case True
    have e0: "upload_chunks h [] ?s1 = ?s1"
      by (simp add: upload_chunks_def)
    show ?thesis
      unfolding unfold by (simp only: True e0)
  next
    case False
    have "upload_chunks h kbs ?s1 = ?s1\<lparr>chunks := (chunks ?s1)(h \<mapsto> stored ?s1 h @ kbs)\<rparr>"
      using Cons.prems(1,2,4) False by (intro Cons.IH) (simp_all add: st)
    moreover have "?s1\<lparr>chunks := (chunks ?s1)(h \<mapsto> stored ?s1 h @ kbs)\<rparr>
        = s\<lparr>chunks := (chunks s)(h \<mapsto> stored s h @ kb # kbs)\<rparr>"
      by (simp add: st)
    ultimately show ?thesis
      by (simp only: unfold)
  qed
qed

lemma merge_after_uploads_in_any_order:
  assumes "fileHash mb = JString h" and "h \<noteq> []" and "fileName mb = JString name"
    and "name \<noteq> []" and "kbs \<noteq> []" and "distinct (map fst kbs)"
    and "list_all numeric_key (map fst kbs)" and "inj_on chunk_index (set (map fst kbs))"
    and "distinct (map fst kbs')" and "set kbs' = set kbs" and "chunks s h = None"
  shows "merge mb (upload_chunks h kbs' s) =
           (MergeOk name,
            s\<lparr>uploads := (uploads s)(name \<mapsto> ascending_bytes kbs),
              chunks := (chunks s)(h \<mapsto> [])\<rparr>)"
proof -
  let ?s' = "s\<lparr>chunks := (chunks s)(h \<mapsto> kbs')\<rparr>"
  have ne: "kbs' \<noteq> []"
    using assms(5,10) by auto
  have num: "list_all numeric_key (map fst kbs')"
    using assms(7,10) by (simp add: list_all_iff)
  then have "list_all (\<lambda>k. k \<noteq> []) (map fst kbs')"
    by (auto simp: list_all_iff numeric_key_nonempty)
  then have "upload_chunks h kbs' s = s\<lparr>chunks := (chunks s)(h \<mapsto> stored s h @ kbs')\<rparr>"
    using assms(2,9,11) ne by (intro upload_chunks_listing) (simp_all add: stored_def)
  then have up: "upload_chunks h kbs' s = ?s'"
    using assms(11) by (simp add: stored_def)
  have "merge mb ?s' =
      (MergeOk name,
       ?s'\<lparr>uploads := (uploads ?s')(name \<mapsto>
              concat (map (\<lambda>c. the (map_of kbs' c)) (js_sort compareFn (readdir kbs')))),
           chunks := (chunks ?s')(h \<mapsto> [])\<rparr>)"
    by (rule merge_any_listing [OF assms(1-4) _ ne assms(9)]) simp
  also have "concat (map (\<lambda>c. the (map_of kbs' c)) (js_sort compareFn (readdir kbs')))
      = ascending_bytes kbs'"
    using assms(9) num by (rule ascending_bytes_listing)
  also have "ascending_bytes kbs' = ascending_bytes kbs"
    using assms(6,8,9,10) by (rule ascending_bytes_order_free)
  finally have "merge mb ?s' =
      (MergeOk name,
       ?s'\<lparr>uploads := (uploads ?s')(name \<mapsto> ascending_bytes kbs),
           chunks := (chunks ?s')(h \<mapsto> [])\<rparr>)" .
  moreover have "?s'\<lparr>uploads := (uploads ?s')(name \<mapsto> ascending_bytes kbs),
           chunks := (chunks ?s')(h \<mapsto> [])\<rparr>
      = s\<lparr>uploads := (uploads s)(name \<mapsto> ascending_bytes kbs),
          chunks := (chunks s)(h \<mapsto> [])\<rparr>"
    by simp
  ultimately show ?thesis
    by (simp only: up)
qed

section \<open>Computing an MD5 digest\<close>

text \<open>
  The recursion of \<open>md5_rounds\<close> and \<open>md5_blocks\<close>, unfolded one step at a time on
  numerals, and the digest of the artifact of the end-to-end scenario.
\<close>

lemma md5_rounds_step:
  "i < 64 \<Longrightarrow> md5_rounds m i a b c d =
     md5_rounds m (i + 1) d
       (add32 b (rotl32 (md5_S ! i)
          (add32 (add32 (add32 a (md5_F i b c d)) (md5_K ! i)) (m ! md5_g i))))
       b c"
  by (subst md5_rounds.simps) simp

lemma md5_rounds_one:
  "md5_rounds m (Suc 0) a b c d =
     md5_rounds m 2 d
       (add32 b (rotl32 (md5_S ! 1)
          (add32 (add32 (add32 a (md5_F 1 b c d)) (md5_K ! 1)) (m ! md5_g 1))))
       b c"
  by (subst md5_rounds.simps) (simp add: numeral_2_eq_2)

lemma md5_rounds_done: "md5_rounds m 64 a b c d = (a, b, c, d)"
  by (subst md5_rounds.simps) simp

lemma md5_blocks_step:
  "bs \<noteq> [] \<Longrightarrow> md5_blocks st bs = md5_blocks (md5_block st (take 64 bs)) (drop 64 bs)"
  by (subst md5_blocks.simps) simp

lemma md5_blocks_done: "md5_blocks st [] = st"
  by (subst md5_blocks.simps) simp

lemma replicate_numeral: "replicate (numeral k) x = x # replicate (pred_numeral k) x"
  by (simp add: numeral_eq_Suc)

lemmas md5_eval =
  md5_hex_def md5_pad_def replicate_numeral le_bytes_def md5_blocks_step md5_blocks_done
  md5_block_def md5_rounds_step [of 0] md5_rounds_one md5_rounds_step [of "numeral k" for k]
  md5_rounds_done add32_def rotl32_def not32_def md5_F_def md5_g_def md5_S_def md5_K_def
  hex_byte_def hex_digit_def

lemma md5_hex_AABBCC: "md5_hex ''AABBCC'' = ''8950ea40af4212ac838555be008297f3''"
  by (simp add: md5_eval)

lemma md5_hex_empty: "md5_hex '''' = ''d41d8cd98f00b204e9800998ecf8427e''"
  by (simp add: md5_eval)

section \<open>Properties of calculateFileHash\<close>

lemma on_events_data: "on_events h (map Data ds @ es) = on_events (h @ concat ds) es"
  by (induction ds arbitrary: h) (simp_all add: hash_update_def)

lemma on_events_resolved:
  "on_events h es = Resolved x \<Longrightarrow>
     \<exists>ds rest. es = map Data ds @ End # rest \<and> x = md5_hex (h @ concat ds)"
proof (induction h es rule: on_events.induct)
  case (1 h)
  then show ?case by simp
next
  case (2 h d es)
  then obtain ds rest where "es = map Data ds @ End # rest" "x = md5_hex (hash_update h d @ concat ds)"
    by auto
  then have "Data d # es = map Data (d # ds) @ End # rest \<and> x = md5_hex (h @ concat (d # ds))"
    by (simp add: hash_update_def)
  then show ?case by blast
next
  case (3 h es)
  then have "End # es = map Data [] @ End # es \<and> x = md5_hex (h @ concat [])"
    by (simp add: hash_digest_def)
  then show ?case by blast
next
  case (4 h e es)
  then show ?case by simp
qed

text \<open>
  Claim C8. When the stream signals an error after any number of \<^verbatim>\<open>'data'\<close> events,
  the promise is rejected with that error, and no digest of the pieces read so far is
  returned; while the stream has neither ended nor failed, nothing is returned; a digest
  is returned only at \<^verbatim>\<open>'end'\<close>, and it is the digest of all the pieces read up to there.
\<close>

theorem calculateFileHash_fails_closed:
  "calculateFileHash (map Data ds @ Error e # rest) = Rejected e
   \<and> calculateFileHash (map Data ds) = Pending
   \<and> calculateFileHash (map Data ds @ End # rest) = Resolved (md5_hex (concat ds))
   \<and> (calculateFileHash stream = Resolved x \<longrightarrow>
        (\<exists>ds' rest'. stream = map Data ds' @ End # rest' \<and> x = md5_hex (concat ds')))"
proof -
  have "calculateFileHash (map Data ds @ Error e # rest) = Rejected e"
    by (simp add: calculateFileHash_def on_events_data)
  moreover have "calculateFileHash (map Data ds) = Pending"
    using on_events_data [of createHash ds "[]"] by (simp add: calculateFileHash_def)
  moreover have "calculateFileHash (map Data ds @ End # rest) = Resolved (md5_hex (concat ds))"
    by (simp add: calculateFileHash_def on_events_data hash_digest_def createHash_def)
  moreover have "calculateFileHash stream = Resolved x \<longrightarrow>
        (\<exists>ds' rest'. stream = map Data ds' @ End # rest' \<and> x = md5_hex (concat ds'))"
    using on_events_resolved [of createHash stream x]
    by (simp add: calculateFileHash_def createHash_def)
  ultimately show ?thesis
    by (intro conjI)
qed

theorem calculateFileHash_fails_closed_witness:
  "calculateFileHash [Data ''AAB'', Error EIO, Data ''BCC'', End] = Rejected EIO
   \<and> calculateFileHash [Data ''AAB''] = Pending
   \<and> calculateFileHash [Data ''AAB'', Data ''BCC'', End] = Resolved ''8950ea40af4212ac838555be008297f3''
   \<and> (\<exists>ds' rest'. [Data ''AAB'', Data ''BCC'', End] = map Data ds' @ End # rest'
         \<and> ''8950ea40af4212ac838555be008297f3'' = md5_hex (concat ds'))"
  using calculateFileHash_fails_closed [where ds = "[''AAB'']" and e = EIO
      and rest = "[Data ''BCC'', End]" and stream = "[Data ''AAB'', Data ''BCC'', End]"
      and x = "''8950ea40af4212ac838555be008297f3''"]
    calculateFileHash_fails_closed [where ds = "[''AAB'', ''BCC'']" and e = EIO
      and rest = "[]" and stream = "[Data ''AAB'', Data ''BCC'', End]"
      and x = "''8950ea40af4212ac838555be008297f3''"]
  by (simp add: md5_hex_AABBCC)

section \<open>Properties of /verify\<close>

lemma concat_read_pieces: "concat (read_pieces xs) = xs"
proof (induction xs rule: read_pieces.induct)
  case (1 xs)
  show ?case
  proof (cases "xs = []")
    case True
    then show ?thesis by (simp add: read_pieces.simps)
  next
    case False
    then have "concat (read_pieces xs) = take 65536 xs @ concat (read_pieces (drop 65536 xs))"
      by (subst read_pieces.simps) simp
    with 1 False show ?thesis by simp
  qed
qed

lemma calculateFileHash_file:
  "calculateFileHash (createReadStream (Some content)) = Resolved (md5_hex content)"
  by (simp add: calculateFileHash_def createReadStream_def on_events_data hash_digest_def
      createHash_def concat_read_pieces)

lemma takeWhile_digits_dash:
  "list_all is_dec_digit ds \<Longrightarrow> takeWhile is_dec_digit (ds @ CHR ''-'' # r) = ds"
  by (induction ds) (auto simp: is_dec_digit_def)

lemma dropWhile_digits_dash:
  "list_all is_dec_digit ds \<Longrightarrow> dropWhile is_dec_digit (ds @ CHR ''-'' # r) = CHR ''-'' # r"
  by (induction ds) (auto simp: is_dec_digit_def)

lemma replace_temp_prefix_strips:
  "ds \<noteq> [] \<Longrightarrow> list_all is_dec_digit ds \<Longrightarrow>
     replace_temp_prefix (''temp-'' @ ds @ ''-'' @ r) = r"
  by (simp add: replace_temp_prefix_def takeWhile_digits_dash dropWhile_digits_dash)

lemma replace_temp_prefix_cases:
  "replace_temp_prefix fh = fh
   \<or> (\<exists>ds. ds \<noteq> [] \<and> list_all is_dec_digit ds
          \<and> fh = ''temp-'' @ ds @ ''-'' @ replace_temp_prefix fh)"
proof (cases "take 5 fh = ''temp-''
        \<and> takeWhile is_dec_digit (drop 5 fh) \<noteq> []
        \<and> take 1 (dropWhile is_dec_digit (drop 5 fh)) = ''-''")
  case False
  then show ?thesis
    by (auto simp: replace_temp_prefix_def)
next
  case True
  let ?ds = "takeWhile is_dec_digit (drop 5 fh)"
  let ?t = "dropWhile is_dec_digit (drop 5 fh)"
  have r: "replace_temp_prefix fh = drop 1 ?t"
    using True by (simp add: replace_temp_prefix_def)
  have t: "?t = ''-'' @ drop 1 ?t"
    using True append_take_drop_id [of 1 ?t] by metis
  have "fh = take 5 fh @ drop 5 fh"
    by simp
  also have "drop 5 fh = ?ds @ ?t"
    by simp
  finally have "fh = ''temp-'' @ ?ds @ ''-'' @ drop 1 ?t"
    using True t by (metis append_assoc)
  moreover have "list_all is_dec_digit ?ds"
    by (simp add: list_all_iff) (meson set_takeWhileD)
  ultimately show ?thesis
    using True r by auto
qed

text \<open>
  Claim C3, as the code has it. For an artifact whose digest is \<open>D\<close> and a non-empty
  declared hash, /verify answers \<open>verified = true\<close> when the declared hash is \<open>D\<close>, and
  also when it is \<open>D\<close> behind a prefix \<^verbatim>\<open>temp-\<close>, decimal digits, \<^verbatim>\<open>-\<close>; for every
  other declared hash it answers \<open>verified = false\<close> with the expected value (the declared
  hash without such a prefix) and the actual value \<open>D\<close>.
\<close>

theorem verify_digest_or_temp_prefix:
  assumes "fileHash b = JString fh" and "fh \<noteq> []" and "fileName b = JString name"
    and "name \<noteq> []" and "uploads s name = Some content"
  shows "verify b s =
           (if fh = md5_hex content
               \<or> (\<exists>ds. ds \<noteq> [] \<and> list_all is_dec_digit ds
                      \<and> fh = ''temp-'' @ ds @ ''-'' @ md5_hex content)
            then VerifyPassed
            else VerifyMismatch (replace_temp_prefix fh) (md5_hex content))"
proof -
  have v: "verify b s =
      (if md5_hex content = replace_temp_prefix fh \<or> fh = md5_hex content then VerifyPassed
       else VerifyMismatch (replace_temp_prefix fh) (md5_hex content))"
    using assms by (simp add: verify_def calculateFileHash_file)
  have "(md5_hex content = replace_temp_prefix fh \<or> fh = md5_hex content)
      = (fh = md5_hex content
          \<or> (\<exists>ds. ds \<noteq> [] \<and> list_all is_dec_digit ds
                \<and> fh = ''temp-'' @ ds @ ''-'' @ md5_hex content))"
    using replace_temp_prefix_cases [of fh] replace_temp_prefix_strips [of _ "md5_hex content"]
    by metis
  with v show ?thesis
    by simp
qed

theorem verify_digest_or_temp_prefix_witness:
  "verify \<lparr>fileHash = JString ''8950ea40af4212ac838555be008297f3'', fileName = JString ''f.bin'',
           sizeField = JUndefined, hash = JUndefined\<rparr>
      \<lparr>uploads = [''f.bin'' \<mapsto> ''AABBCC''], chunks = Map.empty\<rparr> = VerifyPassed
   \<and> verify \<lparr>fileHash = JString ''0000'', fileName = JString ''f.bin'',
           sizeField = JUndefined, hash = JUndefined\<rparr>
      \<lparr>uploads = [''f.bin'' \<mapsto> ''AABBCC''], chunks = Map.empty\<rparr>
     = VerifyMismatch ''0000'' ''8950ea40af4212ac838555be008297f3''"
  using verify_digest_or_temp_prefix [of
      "\<lparr>fileHash = JString ''8950ea40af4212ac838555be008297f3'', fileName = JString ''f.bin'',
        sizeField = JUndefined, hash = JUndefined\<rparr>" "''8950ea40af4212ac838555be008297f3''"
      "''f.bin''" "\<lparr>uploads = [''f.bin'' \<mapsto> ''AABBCC''], chunks = Map.empty\<rparr>" "''AABBCC''"]
    verify_digest_or_temp_prefix [of
      "\<lparr>fileHash = JString ''0000'', fileName = JString ''f.bin'',
        sizeField = JUndefined, hash = JUndefined\<rparr>" "''0000''"
      "''f.bin''" "\<lparr>uploads = [''f.bin'' \<mapsto> ''AABBCC''], chunks = Map.empty\<rparr>" "''AABBCC''"]
  by (simp add: md5_hex_AABBCC replace_temp_prefix_def)

text \<open>
  Claim C3 as the specification words it fails: the declared hash
  \<^verbatim>\<open>temp-1-8950ea40af4212ac838555be008297f3\<close> is not the digest of \<^verbatim>\<open>AABBCC\<close>, and
  /verify answers \<open>verified = true\<close>.
\<close>

theorem verify_temp_prefix_counterexample:
  "''temp-1-8950ea40af4212ac838555be008297f3'' \<noteq> md5_hex ''AABBCC''
   \<and> verify \<lparr>fileHash = JString ''temp-1-8950ea40af4212ac838555be008297f3'',
             fileName = JString ''f.bin'', sizeField = JUndefined, hash = JUndefined\<rparr>
      \<lparr>uploads = [''f.bin'' \<mapsto> ''AABBCC''], chunks = Map.empty\<rparr> = VerifyPassed"
  by (simp add: verify_def calculateFileHash_file md5_hex_AABBCC replace_temp_prefix_def
      is_dec_digit_def)

section \<open>Two /merge calls for one fileHash\<close>








lemma js_sort_two: "js_sort compareFn [''0-a'', ''1-b''] = [''0-a'', ''1-b'']"
  by (simp add: js_sort_numeric numeric_key_eval chunk_index_eval)

lemmas run_eval =
  run_def stored_def readFile_def readdir_def unlink_def write_at_def js_sort_two rmdir_later_def




text \<open>
  When the second call opens its write stream after the first has written a chunk, the
  file is truncated under the first writer, which goes on at its own offset: the call
  that answers 200 leaves an artifact that begins with zero bytes.
\<close>

lemma interleaved_merge_leaves_a_hole:
  "run [0, 0, 0, 1, 1, 0, 1, 0, 0]
     (\<lparr>uploads = Map.empty, chunks = [''H1'' \<mapsto> [(''0-a'', ''AA''), (''1-b'', ''BB'')]]\<rparr>,
      [Start \<lparr>fileHash = JString ''H1'', fileName = JString ''f.bin'', sizeField = JInt 4,
              hash = JUndefined\<rparr>,
       Start \<lparr>fileHash = JString ''H1'', fileName = JString ''f.bin'', sizeField = JInt 4,
              hash = JUndefined\<rparr>])
   = (\<lparr>uploads = [''f.bin'' \<mapsto> [CHR 0x00, CHR 0x00, CHR ''B'', CHR ''B'']],
       chunks = [''H1'' \<mapsto> []]\<rparr>,
      [TimerPending ''H1'' ''f.bin'', Done (MergeFailed ENOENT)])"
  by (simp add: run_eval)

end
